theory Spec2Isabelle
  imports Complex_Main
begin

section \<open>Samples: the values of \<open>mopo_float\<close>\<close>

text \<open>
  \<open>mopo_float\<close> is the engine's floating-point sample type (\<open>common.h\<close>). A value is
  a finite number, one of the two infinities, or not-a-number. The arithmetic below follows
  the IEEE 754 rules for the special values; on finite values it is the exact operation
  on the reals, so rounding, overflow to infinity and the sign of zero are outside the
  model (a zero divisor counts as \<open>+0\<close>).
\<close>

datatype mopo_float = Finite real | PosInf | NegInf | NaN

instantiation mopo_float :: "{zero, one, plus, minus, uminus, times, inverse, abs, ord}"
begin

definition zero_mopo_float :: mopo_float where
  "zero_mopo_float = Finite 0"

definition one_mopo_float :: mopo_float where
  "one_mopo_float = Finite 1"

fun uminus_mopo_float :: "mopo_float \<Rightarrow> mopo_float" where
  "uminus_mopo_float (Finite a) = Finite (- a)"
| "uminus_mopo_float PosInf = NegInf"
| "uminus_mopo_float NegInf = PosInf"
| "uminus_mopo_float NaN = NaN"

fun plus_mopo_float :: "mopo_float \<Rightarrow> mopo_float \<Rightarrow> mopo_float" where
  "plus_mopo_float (Finite a) (Finite b) = Finite (a + b)"
| "plus_mopo_float NaN y = NaN"
| "plus_mopo_float x NaN = NaN"
| "plus_mopo_float PosInf NegInf = NaN"
| "plus_mopo_float NegInf PosInf = NaN"
| "plus_mopo_float PosInf y = PosInf"
| "plus_mopo_float x PosInf = PosInf"
| "plus_mopo_float NegInf y = NegInf"
| "plus_mopo_float x NegInf = NegInf"

definition minus_mopo_float :: "mopo_float \<Rightarrow> mopo_float \<Rightarrow> mopo_float" where
  "minus_mopo_float x y = x + (- y)"

fun times_mopo_float :: "mopo_float \<Rightarrow> mopo_float \<Rightarrow> mopo_float" where
  "times_mopo_float (Finite a) (Finite b) = Finite (a * b)"
| "times_mopo_float NaN y = NaN"
| "times_mopo_float x NaN = NaN"
| "times_mopo_float PosInf (Finite b) = (if b = 0 then NaN else if 0 < b then PosInf else NegInf)"
| "times_mopo_float NegInf (Finite b) = (if b = 0 then NaN else if 0 < b then NegInf else PosInf)"
| "times_mopo_float (Finite a) PosInf = (if a = 0 then NaN else if 0 < a then PosInf else NegInf)"
| "times_mopo_float (Finite a) NegInf = (if a = 0 then NaN else if 0 < a then NegInf else PosInf)"
| "times_mopo_float PosInf PosInf = PosInf"
| "times_mopo_float PosInf NegInf = NegInf"
| "times_mopo_float NegInf PosInf = NegInf"
| "times_mopo_float NegInf NegInf = PosInf"

fun divide_mopo_float :: "mopo_float \<Rightarrow> mopo_float \<Rightarrow> mopo_float" where
  "divide_mopo_float (Finite a) (Finite b) =
     (if b \<noteq> 0 then Finite (a / b)
      else if a = 0 then NaN else if 0 < a then PosInf else NegInf)"
| "divide_mopo_float NaN y = NaN"
| "divide_mopo_float x NaN = NaN"
| "divide_mopo_float (Finite a) PosInf = Finite 0"
| "divide_mopo_float (Finite a) NegInf = Finite 0"
| "divide_mopo_float PosInf (Finite b) = (if 0 \<le> b then PosInf else NegInf)"
| "divide_mopo_float NegInf (Finite b) = (if 0 \<le> b then NegInf else PosInf)"
| "divide_mopo_float PosInf PosInf = NaN"
| "divide_mopo_float PosInf NegInf = NaN"
| "divide_mopo_float NegInf PosInf = NaN"
| "divide_mopo_float NegInf NegInf = NaN"

fun inverse_mopo_float :: "mopo_float \<Rightarrow> mopo_float" where
  "inverse_mopo_float (Finite a) = (if a \<noteq> 0 then Finite (1 / a) else PosInf)"
| "inverse_mopo_float PosInf = Finite 0"
| "inverse_mopo_float NegInf = Finite 0"
| "inverse_mopo_float NaN = NaN"

fun abs_mopo_float :: "mopo_float \<Rightarrow> mopo_float" where
  "abs_mopo_float (Finite a) = Finite \<bar>a\<bar>"
| "abs_mopo_float PosInf = PosInf"
| "abs_mopo_float NegInf = PosInf"
| "abs_mopo_float NaN = NaN"

text \<open>Comparisons: every comparison with \<open>NaN\<close> is false.\<close>

fun less_mopo_float :: "mopo_float \<Rightarrow> mopo_float \<Rightarrow> bool" where
  "less_mopo_float (Finite a) (Finite b) = (a < b)"
| "less_mopo_float (Finite a) PosInf = True"
| "less_mopo_float NegInf (Finite b) = True"
| "less_mopo_float NegInf PosInf = True"
| "less_mopo_float x y = False"

fun less_eq_mopo_float :: "mopo_float \<Rightarrow> mopo_float \<Rightarrow> bool" where
  "less_eq_mopo_float (Finite a) (Finite b) = (a \<le> b)"
| "less_eq_mopo_float (Finite a) PosInf = True"
| "less_eq_mopo_float NegInf (Finite b) = True"
| "less_eq_mopo_float NegInf PosInf = True"
| "less_eq_mopo_float PosInf PosInf = True"
| "less_eq_mopo_float NegInf NegInf = True"
| "less_eq_mopo_float x y = False"

instance ..

end

lemma plus_mopo_float_assoc: "(a + b) + c = a + (b + (c::mopo_float))"
  by (cases a; cases b; cases c) simp_all

instantiation mopo_float :: numeral
begin

instance
  by standard (rule plus_mopo_float_assoc)

end

instantiation mopo_float :: power
begin

instance ..

end

section \<open>Scalar comparison backend (\<open>utils.h\<close>)\<close>

subsection \<open>The primitives the two backends are built from\<close>

text \<open>
  \<open>_mm_max_sd(a, b)\<close> and \<open>_mm_min_sd(a, b)\<close> (MAXSD, MINSD) return the first operand
  when the comparison holds and the second operand otherwise, in particular when an
  operand is \<open>NaN\<close>. \<open>_mm_set_sd\<close> and \<open>_mm_store_sd\<close> only move the scalar.
\<close>

definition mm_max_sd :: "mopo_float \<Rightarrow> mopo_float \<Rightarrow> mopo_float" where
  "mm_max_sd a b = (if b < a then a else b)"

definition mm_min_sd :: "mopo_float \<Rightarrow> mopo_float \<Rightarrow> mopo_float" where
  "mm_min_sd a b = (if a < b then a else b)"

text \<open>\<open>std::max(a, b)\<close> is \<open>(a < b) ? b : a\<close>; \<open>std::min(a, b)\<close> is \<open>(b < a) ? b : a\<close>.\<close>

definition std_max :: "mopo_float \<Rightarrow> mopo_float \<Rightarrow> mopo_float" where
  "std_max a b = (if a < b then b else a)"

definition std_min :: "mopo_float \<Rightarrow> mopo_float \<Rightarrow> mopo_float" where
  "std_min a b = (if b < a then b else a)"

subsection \<open>The SSE2 backend\<close>

definition min_sse :: "mopo_float \<Rightarrow> mopo_float \<Rightarrow> mopo_float" where
  "min_sse one two = mm_min_sd one two"

definition max_sse :: "mopo_float \<Rightarrow> mopo_float \<Rightarrow> mopo_float" where
  "max_sse one two = mm_max_sd one two"

definition clamp_sse :: "mopo_float \<Rightarrow> mopo_float \<Rightarrow> mopo_float \<Rightarrow> mopo_float" where
  "clamp_sse value minv maxv = mm_min_sd (mm_max_sd value minv) maxv"

subsection \<open>The portable backend\<close>

definition min_scalar :: "mopo_float \<Rightarrow> mopo_float \<Rightarrow> mopo_float" where
  "min_scalar one two = std_min one two"

definition max_scalar :: "mopo_float \<Rightarrow> mopo_float \<Rightarrow> mopo_float" where
  "max_scalar one two = std_max one two"

definition clamp_scalar :: "mopo_float \<Rightarrow> mopo_float \<Rightarrow> mopo_float \<Rightarrow> mopo_float" where
  "clamp_scalar value minv maxv = std_min maxv (std_max value minv)"

subsection \<open>Integer clamp\<close>

text \<open>
  \<open>iclamp\<close> compares \<open>int\<close>s and returns the chosen one converted to \<open>mopo_float\<close>; the
  conversion of an \<open>int\<close> is exact.
\<close>

definition iclamp :: "int \<Rightarrow> int \<Rightarrow> int \<Rightarrow> mopo_float" where
  "iclamp value minv maxv =
     Finite (of_int (if value > maxv then maxv else (if value < minv then minv else value)))"

section \<open>The C library functions the conversions call\<close>

text \<open>
  \<open>log\<close>, \<open>log10\<close> and \<open>pow\<close> of \<open><cmath>\<close>, with the special cases of the C standard
  (Annex F): the logarithm of zero is minus infinity, the logarithm of a negative number is
  \<open>NaN\<close>. On finite arguments inside the domain they are the exact real functions.
\<close>

fun log_libm :: "mopo_float \<Rightarrow> mopo_float" where
  "log_libm (Finite x) = (if 0 < x then Finite (ln x) else if x = 0 then NegInf else NaN)"
| "log_libm PosInf = PosInf"
| "log_libm NegInf = NaN"
| "log_libm NaN = NaN"

fun log10_libm :: "mopo_float \<Rightarrow> mopo_float" where
  "log10_libm (Finite x) = (if 0 < x then Finite (log 10 x) else if x = 0 then NegInf else NaN)"
| "log10_libm PosInf = PosInf"
| "log10_libm NegInf = NaN"
| "log10_libm NaN = NaN"

definition is_integer :: "real \<Rightarrow> bool" where
  "is_integer y = (y = of_int \<lfloor>y\<rfloor>)"

definition is_odd_integer :: "real \<Rightarrow> bool" where
  "is_odd_integer y = (is_integer y \<and> odd \<lfloor>y\<rfloor>)"

fun pow_libm :: "mopo_float \<Rightarrow> mopo_float \<Rightarrow> mopo_float" where
  "pow_libm (Finite x) (Finite y) =
     (if y = 0 \<or> x = 1 then Finite 1
      else if 0 < x then Finite (x powr y)
      else if x = 0 then (if y < 0 then PosInf else Finite 0)
      else if is_integer y then Finite ((if is_odd_integer y then - 1 else 1) * (- x) powr y)
      else NaN)"
| "pow_libm (Finite x) PosInf =
     (if \<bar>x\<bar> = 1 then Finite 1 else if \<bar>x\<bar> < 1 then Finite 0 else PosInf)"
| "pow_libm (Finite x) NegInf =
     (if \<bar>x\<bar> = 1 then Finite 1 else if \<bar>x\<bar> < 1 then PosInf else Finite 0)"
| "pow_libm (Finite x) NaN = (if x = 1 then Finite 1 else NaN)"
| "pow_libm PosInf (Finite y) =
     (if y = 0 then Finite 1 else if y < 0 then Finite 0 else PosInf)"
| "pow_libm NegInf (Finite y) =
     (if y = 0 then Finite 1 else if y < 0 then Finite 0
      else if is_odd_integer y then NegInf else PosInf)"
| "pow_libm NaN (Finite y) = (if y = 0 then Finite 1 else NaN)"
| "pow_libm PosInf PosInf = PosInf"
| "pow_libm NegInf PosInf = PosInf"
| "pow_libm PosInf NegInf = Finite 0"
| "pow_libm NegInf NegInf = Finite 0"
| "pow_libm x y = NaN"

text \<open>
  Conversion between \<open>int\<close> and floating point. An \<open>int\<close> converts exactly. A
  floating-point value converts to \<open>int\<close> by truncation toward zero; the conversion has
  no defined result (\<open>None\<close>) for \<open>NaN\<close>, an infinity, or a value whose truncation is
  outside the 32-bit range.
\<close>

definition int_to_float :: "int \<Rightarrow> mopo_float" where
  "int_to_float i = Finite (of_int i)"

fun float_to_int :: "mopo_float \<Rightarrow> int option" where
  "float_to_int (Finite r) =
     (let t = (if 0 \<le> r then \<lfloor>r\<rfloor> else \<lceil>r\<rceil>)
      in if - (2 ^ 31) \<le> t \<and> t < 2 ^ 31 then Some t else None)"
| "float_to_int x = None"

section \<open>Constants (\<open>utils.h\<close>)\<close>

definition EPSILON :: mopo_float where
  "EPSILON = 0.0000000000000001"

definition DB_GAIN_CONVERSION_MULT :: mopo_float where
  "DB_GAIN_CONVERSION_MULT = 20"

definition MIDI_0_FREQUENCY :: mopo_float where
  "MIDI_0_FREQUENCY = 8.1757989156"

definition NOTES_PER_OCTAVE :: int where
  "NOTES_PER_OCTAVE = 12"

definition CENTS_PER_NOTE :: int where
  "CENTS_PER_NOTE = 100"

definition CENTS_PER_OCTAVE :: int where
  "CENTS_PER_OCTAVE = NOTES_PER_OCTAVE * CENTS_PER_NOTE"

definition MAX_Q_POW :: mopo_float where
  "MAX_Q_POW = 4"

definition MIN_Q_POW :: mopo_float where
  "MIN_Q_POW = - 1"

text \<open>
  Modelled from the spec: the macro \<open>INTERPOLATE\<close> of \<open>common.h\<close>, which is not among
  the sources. The spec writes \<open>magnitudeToQ\<close> as \<open>2^lerp(-1, 4, magnitude)\<close> with
  \<open>magnitudeToQ(0) = 0.5\<close> and \<open>magnitudeToQ(1) = 16\<close>: the linear interpolation from
  the first argument to the second by the fraction in the third.
\<close>

definition INTERPOLATE :: "mopo_float \<Rightarrow> mopo_float \<Rightarrow> mopo_float \<Rightarrow> mopo_float" where
  "INTERPOLATE s e f = s + f * (e - s)"

section \<open>Unit conversions (\<open>utils.h\<close>)\<close>

definition closeToZero :: "mopo_float \<Rightarrow> bool" where
  "closeToZero value = (value \<le> EPSILON \<and> value \<ge> - EPSILON)"

definition gainToDb :: "mopo_float \<Rightarrow> mopo_float" where
  "gainToDb gain = DB_GAIN_CONVERSION_MULT * log10_libm gain"

definition dbToGain :: "mopo_float \<Rightarrow> mopo_float" where
  "dbToGain decibels = pow_libm 10 (decibels / DB_GAIN_CONVERSION_MULT)"

definition centsToRatio :: "mopo_float \<Rightarrow> mopo_float" where
  "centsToRatio cents = pow_libm 2 (cents / int_to_float CENTS_PER_OCTAVE)"

definition midiCentsToFrequency :: "mopo_float \<Rightarrow> mopo_float" where
  "midiCentsToFrequency cents = MIDI_0_FREQUENCY * centsToRatio cents"

definition midiNoteToFrequency :: "mopo_float \<Rightarrow> mopo_float" where
  "midiNoteToFrequency note = midiCentsToFrequency (note * int_to_float CENTS_PER_NOTE)"

definition frequencyToMidiNote :: "mopo_float \<Rightarrow> mopo_float" where
  "frequencyToMidiNote frequency =
     int_to_float NOTES_PER_OCTAVE * log_libm (frequency / MIDI_0_FREQUENCY) / log_libm 2"

definition frequencyToMidiCents :: "mopo_float \<Rightarrow> mopo_float" where
  "frequencyToMidiCents frequency = int_to_float CENTS_PER_NOTE * frequencyToMidiNote frequency"

definition magnitudeToQ :: "mopo_float \<Rightarrow> mopo_float" where
  "magnitudeToQ magnitude = pow_libm 2 (INTERPOLATE MIN_Q_POW MAX_Q_POW magnitude)"

definition qToMagnitude :: "mopo_float \<Rightarrow> mopo_float" where
  "qToMagnitude q = (pow_libm 0.5 q - MIN_Q_POW) / (MAX_Q_POW - MIN_Q_POW)"

section \<open>Rounding in the MIDI conversions\<close>

text \<open>
  The arithmetic of \<open>mopo_float\<close> above is exact on finite values. The source computes in
  floating point: every operation, every call of \<open>log\<close> and \<open>pow\<close>, and the conversion
  of the literal \<open>8.1757989156\<close> return the exact result times \<open>1 + d\<close> for a small
  relative error \<open>d\<close> (the standard model of floating-point arithmetic, away from
  overflow and underflow). \<open>rounded d x\<close> is that result.

  The two functions below are \<open>frequencyToMidiNote\<close> and \<open>midiNoteToFrequency\<close> on
  positive finite numbers with the rounding of each operation explicit; \<open>\<delta> k\<close> is the
  relative error of operation \<open>k\<close>: 0 the division by \<open>MIDI_0_FREQUENCY\<close>, 1 \<open>log\<close>,
  2 the product with \<open>NOTES_PER_OCTAVE\<close>, 3 \<open>log(2.0)\<close>, 4 the division by it, 5 the
  product with \<open>CENTS_PER_NOTE\<close>, 6 the division by \<open>CENTS_PER_OCTAVE\<close>, 7 \<open>pow\<close>,
  8 the product with \<open>MIDI_0_FREQUENCY\<close>, 9 the literal \<open>8.1757989156\<close> itself. The
  integer constants and \<open>2.0\<close> convert exactly.
\<close>

definition rounded :: "real \<Rightarrow> real \<Rightarrow> real" where
  "rounded d x = x * (1 + d)"

definition frequencyToMidiNote_rounded :: "(nat \<Rightarrow> real) \<Rightarrow> real \<Rightarrow> real" where
  "frequencyToMidiNote_rounded \<delta> frequency =
     rounded (\<delta> 4)
       (rounded (\<delta> 2) (12 * rounded (\<delta> 1) (ln (rounded (\<delta> 0) (frequency / rounded (\<delta> 9) 8.1757989156))))
        / rounded (\<delta> 3) (ln 2))"

definition midiNoteToFrequency_rounded :: "(nat \<Rightarrow> real) \<Rightarrow> real \<Rightarrow> real" where
  "midiNoteToFrequency_rounded \<delta> note =
     rounded (\<delta> 8)
       (rounded (\<delta> 9) 8.1757989156 *
        rounded (\<delta> 7) (2 powr (rounded (\<delta> 6) (rounded (\<delta> 5) (note * 100) / 1200))))"

section \<open>Fast approximations (\<open>utils.h\<close>)\<close>

text \<open>
  The coefficients of \<open>quicktanh\<close> are single-precision literals (suffix \<open>f\<close>). Such a
  literal denotes the binary32 number nearest to the decimal written, and that number
  enters the arithmetic:
  \<open>2.45550750702956f\<close> is \<open>10299145 / 2^22\<close>,
  \<open>0.893229853513558f\<close> is \<open>7492955 / 2^23\<close>,
  \<open>0.821226666969744f\<close> is \<open>13777897 / 2^24\<close>,
  \<open>2.44506634652299f\<close> is \<open>1281919 / 2^19\<close>,
  \<open>0.814642734961073f\<close> is \<open>13667437 / 2^24\<close>.
  The coefficients of the other functions are double literals, taken as written.
\<close>

definition quickertanh :: "mopo_float \<Rightarrow> mopo_float" where
  "quickertanh value =
     (let square = value * value
      in value / (1 + square / (3 + square / 5)))"

definition quicktanh :: "mopo_float \<Rightarrow> mopo_float" where
  "quicktanh value =
     (let abs_value = \<bar>value\<bar>;
          square = value * value;
          num = value * ((10299145 / 2 ^ 22) + (10299145 / 2 ^ 22) * abs_value +
                         square * ((7492955 / 2 ^ 23) + (13777897 / 2 ^ 24) * abs_value));
          den = (1281919 / 2 ^ 19) + ((1281919 / 2 ^ 19) + square) *
                \<bar>value + (13667437 / 2 ^ 24) * value * abs_value\<bar>
      in num / den)"

definition quickerSin :: "mopo_float \<Rightarrow> mopo_float" where
  "quickerSin phase = phase * (8 - 16 * \<bar>phase\<bar>)"

definition quickSin :: "mopo_float \<Rightarrow> mopo_float" where
  "quickSin phase =
     (let approx = quickerSin phase
      in approx * (0.776 + 0.224 * \<bar>approx\<bar>))"

definition quickerSin1 :: "mopo_float \<Rightarrow> mopo_float" where
  "quickerSin1 phase0 =
     (let phase = 0.5 - phase0
      in phase * (8 - 16 * \<bar>phase\<bar>))"

definition quickSin1 :: "mopo_float \<Rightarrow> mopo_float" where
  "quickSin1 phase =
     (let approx = quickerSin1 phase
      in approx * (0.776 + 0.224 * \<bar>approx\<bar>))"

text \<open>
  The two soft clippers on finite numbers with the rounding of each operation explicit:
  \<open>rnd\<close> maps the exact result of an operation to the floating-point number it is rounded
  to. \<open>fabs\<close> and the negation are exact, and so are the literals, which are
  floating-point numbers already. \<open>truncate_bits\<close> is one such rounding, to ten binary
  places toward zero; \<open>rounded d\<close>, which multiplies by \<open>1 + d\<close>, is another.
\<close>

definition quickertanh_rounded :: "(real \<Rightarrow> real) \<Rightarrow> real \<Rightarrow> real" where
  "quickertanh_rounded rnd value =
     (let square = rnd (value * value)
      in rnd (value / rnd (1 + rnd (square / rnd (3 + rnd (square / 5))))))"

definition quicktanh_rounded :: "(real \<Rightarrow> real) \<Rightarrow> real \<Rightarrow> real" where
  "quicktanh_rounded rnd value =
     (let abs_value = \<bar>value\<bar>;
          square = rnd (value * value);
          num = rnd (value * rnd (rnd ((10299145 / 2 ^ 22) + rnd ((10299145 / 2 ^ 22) * abs_value)) +
                         rnd (square * rnd ((7492955 / 2 ^ 23) + rnd ((13777897 / 2 ^ 24) * abs_value)))));
          den = rnd ((1281919 / 2 ^ 19) + rnd (rnd ((1281919 / 2 ^ 19) + square) *
                \<bar>rnd (value + rnd (rnd ((13667437 / 2 ^ 24) * value) * abs_value))\<bar>))
      in rnd (num / den))"

definition truncate_bits :: "real \<Rightarrow> real" where
  "truncate_bits x = sgn x * of_int \<lfloor>\<bar>x\<bar> * 1024\<rfloor> / 1024"


section \<open>Buffer primitives (\<open>utils.h\<close>)\<close>

text \<open>
  A buffer is the caller's array, here the list of its elements. The loop of \<open>isSilent\<close>
  reads \<open>buffer[i]\<close> for \<open>i = 0, 1, \<dots>\<close> while \<open>i < length\<close>, and returns at the first
  element that is not close to zero. A read outside the array has no defined result
  (\<open>None\<close>).
\<close>

function isSilent_loop :: "mopo_float list \<Rightarrow> int \<Rightarrow> int \<Rightarrow> bool option" where
  "isSilent_loop buffer len i =
     (if i < len then
        (if i < 0 \<or> int (length buffer) \<le> i then None
         else if \<not> closeToZero (buffer ! nat i) then Some False
         else isSilent_loop buffer len (i + 1))
      else Some True)"
  by pat_completeness auto
termination
  by (relation "measure (\<lambda>(buffer, len, i). nat (len - i))") auto

definition isSilent :: "mopo_float list \<Rightarrow> int \<Rightarrow> bool option" where
  "isSilent buffer len = isSilent_loop buffer len 0"

section \<open>The text selector widget (\<open>text_selector.cpp\<close>)\<close>

text \<open>
  What the widget reads from its slider base class: the range \<open>getMinimum()\<close>,
  \<open>getMaximum()\<close> (doubles) and the width \<open>getWidth()\<close> in pixels (an \<open>int\<close>).
\<close>

record text_selector =
  minimum :: mopo_float
  maximum :: mopo_float
  width :: int

text \<open>\<open>paint\<close> draws \<open>num_types\<close> cells, each \<open>cell_width\<close> wide.\<close>

definition num_types :: "text_selector \<Rightarrow> int option" where
  "num_types w = float_to_int (maximum w - minimum w + 1)"

text \<open>
  \<open>mouseEvent\<close> converts the pointer's x position to a float, computes \<open>index\<close> and calls
  \<open>setValue(index)\<close>. The model returns the argument of that call.
\<close>

definition mouseEvent :: "text_selector \<Rightarrow> int \<Rightarrow> int option" where
  "mouseEvent w pointer_x =
     (let x = int_to_float pointer_x
      in float_to_int (x * (maximum w + 1) / int_to_float (width w)))"

text \<open>
  The index as the interface description words it, for comparison with \<open>mouseEvent\<close>:
  \<open>pointerX * (maximum - minimum + 1) / widgetWidth\<close>.
\<close>

definition spec_index :: "text_selector \<Rightarrow> int \<Rightarrow> int option" where
  "spec_index w pointer_x =
     float_to_int (int_to_float pointer_x * (maximum w - minimum w + 1) / int_to_float (width w))"

section \<open>Arithmetic on finite values\<close>

text \<open>On finite values the operations of \<open>mopo_float\<close> are those of the reals.\<close>

lemma numeral_mopo_float [simp]: "(numeral k :: mopo_float) = Finite (numeral k)"
proof (induction k)
  case One
  show ?case by (simp add: one_mopo_float_def)
next
  case (Bit0 k)
  have "(numeral (Num.Bit0 k) :: mopo_float) = numeral k + numeral k"
    by (rule numeral_Bit0)
  also have "\<dots> = Finite (numeral k + numeral k)"
    by (simp only: Bit0.IH plus_mopo_float.simps)
  finally show ?case by (simp only: numeral_Bit0)
next
  case (Bit1 k)
  have "(numeral (Num.Bit1 k) :: mopo_float) = numeral k + numeral k + 1"
    by (rule numeral_Bit1)
  also have "\<dots> = Finite (numeral k + numeral k + 1)"
    by (simp only: Bit1.IH plus_mopo_float.simps one_mopo_float_def)
  finally show ?case by (simp only: numeral_Bit1)
qed

lemma one_Finite [simp]: "(1 :: mopo_float) = Finite 1"
  by (simp add: one_mopo_float_def)

lemma zero_Finite [simp]: "(0 :: mopo_float) = Finite 0"
  by (simp add: zero_mopo_float_def)

lemma minus_Finite [simp]: "Finite a - Finite b = Finite (a - b)"
  by (simp add: minus_mopo_float_def)

lemma power_Finite [simp]: "Finite a ^ n = Finite (a ^ n)"
  by (induction n) simp_all

lemma divide_Finite [simp]: "b \<noteq> 0 \<Longrightarrow> Finite a / Finite b = Finite (a / b)"
  by simp

lemma minus_zero_mopo_float: "(x :: mopo_float) - 0 = x"
  by (cases x) (simp_all add: minus_mopo_float_def)

section \<open>Properties of the comparison backend\<close>

text \<open>
  Claim C4. For finite \<open>a\<close>, \<open>lo\<close>, \<open>hi\<close> with \<open>lo \<le> hi\<close>, \<open>clamp(a, lo, hi)\<close> lies in
  \<open>[lo, hi]\<close>, equals \<open>a\<close> when \<open>a\<close> is in the range, equals \<open>lo\<close> when \<open>a < lo\<close> and
  \<open>hi\<close> when \<open>a > hi\<close>; the SSE2 backend and the portable backend agree.
\<close>

theorem clamp_in_range:
  assumes "lo \<le> hi"
  shows "clamp_scalar (Finite a) (Finite lo) (Finite hi) = Finite (if a < lo then lo else if hi < a then hi else a)
    \<and> clamp_sse (Finite a) (Finite lo) (Finite hi) = clamp_scalar (Finite a) (Finite lo) (Finite hi)
    \<and> Finite lo \<le> clamp_scalar (Finite a) (Finite lo) (Finite hi)
    \<and> clamp_scalar (Finite a) (Finite lo) (Finite hi) \<le> Finite hi"
  using assms
  by (simp add: clamp_scalar_def clamp_sse_def std_min_def std_max_def mm_min_sd_def mm_max_sd_def)

theorem clamp_in_range_witness:
  "(0::real) \<le> 1
    \<and> clamp_scalar (Finite 5) (Finite 0) (Finite 1) = Finite 1
    \<and> clamp_sse (Finite 5) (Finite 0) (Finite 1) = Finite 1
    \<and> clamp_scalar (Finite (-3)) (Finite 0) (Finite 1) = Finite 0
    \<and> clamp_sse (Finite (1/2)) (Finite 0) (Finite 1) = Finite (1/2)"
  using clamp_in_range [of 0 1 5] clamp_in_range [of 0 1 "-3"] clamp_in_range [of 0 1 "1/2"]
  by simp

text \<open>
  Claim C9, as amended. With inverted bounds (\<open>hi < lo\<close>) the floating-point clamp of
  both backends returns \<open>hi\<close> for every \<open>v\<close> (the upper bound is applied last). The
  integer \<open>iclamp\<close> tests the upper bound first: with \<open>hi < lo\<close> it returns \<open>lo\<close> exactly
  when \<open>v \<le> hi\<close>, and returns \<open>hi\<close> when \<open>hi < v\<close>, also for \<open>hi < v < lo\<close>.
\<close>

theorem clamp_inverted_bounds:
  "(hi < lo \<longrightarrow> clamp_scalar v lo hi = hi \<and> clamp_sse v lo hi = hi)
    \<and> (ihi < ilo \<and> iv \<le> ihi \<longrightarrow> iclamp iv ilo ihi = Finite (of_int ilo))
    \<and> (ihi < iv \<longrightarrow> iclamp iv ilo ihi = Finite (of_int ihi))"
proof (intro conjI impI)
  assume inv: "hi < lo"
  have a: "\<not> std_max v lo < hi"
    using inv by (cases v; cases lo; cases hi) (auto simp: std_max_def)
  show "clamp_scalar v lo hi = hi"
    using a by (simp add: clamp_scalar_def std_min_def)
  have b: "\<not> mm_max_sd v lo < hi"
    using inv by (cases v; cases lo; cases hi) (auto simp: mm_max_sd_def)
  show "clamp_sse v lo hi = hi"
    using b by (simp add: clamp_sse_def mm_min_sd_def)
next
  assume "ihi < ilo \<and> iv \<le> ihi"
  then show "iclamp iv ilo ihi = Finite (of_int ilo)"
    by (simp add: iclamp_def)
next
  assume "ihi < iv"
  then show "iclamp iv ilo ihi = Finite (of_int ihi)"
    by (simp add: iclamp_def)
qed

theorem clamp_inverted_bounds_witness:
  "Finite 0 < Finite 10
    \<and> clamp_scalar (Finite 5) (Finite 10) (Finite 0) = Finite 0
    \<and> clamp_sse (Finite 5) (Finite 10) (Finite 0) = Finite 0
    \<and> iclamp (-1) 10 0 = Finite 10
    \<and> iclamp 5 10 0 = Finite 0"
  using clamp_inverted_bounds [of "Finite 0" "Finite 10" "Finite 5" 0 10 "-1"]
    clamp_inverted_bounds [of "Finite 0" "Finite 10" "Finite 5" 0 10 5]
  by simp

text \<open>
  The claim as first stated (\<open>iclamp\<close> returns \<open>lo\<close> for every \<open>v < lo\<close>, also when
  \<open>lo > hi\<close>) fails at \<open>v = 5\<close>, \<open>lo = 10\<close>, \<open>hi = 0\<close>: \<open>5 > 0\<close>, so the first test
  returns \<open>hi\<close>.
\<close>

theorem iclamp_inverted_counterexample:
  "(5::int) < 10 \<and> (0::int) < 10 \<and> iclamp 5 10 0 = Finite 0 \<and> iclamp 5 10 0 \<noteq> Finite 10"
  by (simp add: iclamp_def)

section \<open>Properties of the buffer primitives\<close>

lemma EPSILON_Finite: "EPSILON = Finite (1 / 10 ^ 16)"
  by (simp add: EPSILON_def)

lemma closeToZero_abs: "closeToZero v = (\<bar>v\<bar> \<le> EPSILON)"
  by (cases v) (auto simp: closeToZero_def EPSILON_Finite)

lemma isSilent_loop_run:
  "0 \<le> i \<Longrightarrow> len \<le> int (length buffer) \<Longrightarrow>
     isSilent_loop buffer len i = Some (\<forall>j. nat i \<le> j \<and> j < nat len \<longrightarrow> closeToZero (buffer ! j))"
proof (induction buffer len i rule: isSilent_loop.induct)
  case (1 buffer len i)
  show ?case
  proof (cases "i < len")
    case False
    then show ?thesis by (subst isSilent_loop.simps) auto
  next
    case True
    note lt = True
    show ?thesis
    proof (cases "closeToZero (buffer ! nat i)")
      case False
      then have "\<exists>j. nat i \<le> j \<and> j < nat len \<and> \<not> closeToZero (buffer ! j)"
        using lt "1.prems" by (intro exI [of _ "nat i"]) auto
      then show ?thesis
        using lt "1.prems" False by (subst isSilent_loop.simps) auto
    next
      case True
      have ih: "isSilent_loop buffer len (i + 1) =
          Some (\<forall>j. nat (i + 1) \<le> j \<and> j < nat len \<longrightarrow> closeToZero (buffer ! j))"
        using "1.IH" lt "1.prems" True by simp
      have "(\<forall>j. nat i \<le> j \<and> j < nat len \<longrightarrow> closeToZero (buffer ! j))
          = (\<forall>j. nat (i + 1) \<le> j \<and> j < nat len \<longrightarrow> closeToZero (buffer ! j))"
      proof -
        have "nat (i + 1) = Suc (nat i)" using "1.prems" by simp
        then show ?thesis using True
          by (metis Suc_leD Suc_leI le_neq_implies_less)
      qed
      then show ?thesis
        using lt "1.prems" True ih by (subst isSilent_loop.simps) auto
    qed
  qed
qed

lemma not_le_if_less: "(a::mopo_float) < b \<Longrightarrow> \<not> b \<le> a"
  by (cases a; cases b) auto

text \<open>
  Claim C5. For a buffer \<open>b\<close> of at least \<open>n\<close> elements, \<open>isSilent(b, n)\<close> returns true
  if and only if every \<open>b[i]\<close> with \<open>0 \<le> i < n\<close> has absolute value at most \<open>1e-16\<close>;
  \<open>isSilent(b, 0)\<close> returns true whatever the buffer holds; and \<open>isSilent\<close> returns
  false when some element among the first \<open>n\<close> exceeds \<open>1e-16\<close> in absolute value.
\<close>

theorem isSilent_iff:
  assumes "n \<le> int (length b)"
  shows "isSilent b n = Some (\<forall>i < nat n. \<bar>b ! i\<bar> \<le> EPSILON)
    \<and> isSilent b 0 = Some True
    \<and> ((\<exists>i < nat n. EPSILON < \<bar>b ! i\<bar>) \<longrightarrow> isSilent b n = Some False)"
proof -
  have a: "isSilent b n = Some (\<forall>i < nat n. \<bar>b ! i\<bar> \<le> EPSILON)"
    using isSilent_loop_run [of 0 n b] assms by (simp add: isSilent_def closeToZero_abs)
  have z: "isSilent b 0 = Some True"
    by (simp add: isSilent_def)
  have c: "(\<exists>i < nat n. EPSILON < \<bar>b ! i\<bar>) \<longrightarrow> isSilent b n = Some False"
    using a not_le_if_less by auto
  show ?thesis using a z c by blast
qed

theorem isSilent_iff_witness:
  "(2::int) \<le> int (length [Finite 0, Finite 1])
    \<and> isSilent [Finite 0, Finite 1] 2 = Some False
    \<and> isSilent [Finite 0, Finite 0] 2 = Some True
    \<and> isSilent [Finite 1] 0 = Some True"
proof -
  have h: "(2::int) \<le> int (length [Finite 0, Finite 1])" by simp
  have "\<exists>i < nat 2. EPSILON < \<bar>[Finite 0, Finite 1] ! i\<bar>"
    by (intro exI [of _ 1]) (simp add: EPSILON_Finite)
  then have f: "isSilent [Finite 0, Finite 1] 2 = Some False"
    using isSilent_iff [OF h] by blast
  have k: "(2::int) \<le> int (length [Finite 0, Finite 0])" by simp
  have "\<forall>i < nat 2. \<bar>[Finite 0, Finite 0] ! i\<bar> \<le> EPSILON"
    by (auto simp: EPSILON_Finite less_Suc_eq numeral_2_eq_2)
  then have t: "isSilent [Finite 0, Finite 0] 2 = Some True"
    using isSilent_iff [OF k] by simp
  have z: "isSilent [Finite 1] 0 = Some True"
    using isSilent_iff [of 0 "[Finite 1]"] by simp
  show ?thesis using h f t z by blast
qed

section \<open>The text selector's index\<close>

text \<open>
  Claim C3. On a pointer interaction the widget is to compute
  \<open>index = pointerX * (maximum - minimum + 1) / widgetWidth\<close> and request that value;
  \<open>maximum - minimum + 1\<close> is the number of cells that \<open>paint\<close> draws (\<open>num_types\<close>).
  \<open>mouseEvent\<close> multiplies by \<open>getMaximum() + 1\<close> instead. With the range \<open>[1, 3]\<close> on
  a widget 300 pixels wide, a pointer at \<open>x = 299\<close> lies in the last of the three cells
  (index 2), and \<open>mouseEvent\<close> requests the value 3. The two formulas agree when the
  minimum is \<open>0\<close>.
\<close>

theorem mouseEvent_ignores_minimum:
  "mouseEvent \<lparr>minimum = 1, maximum = 3, width = 300\<rparr> 299 = Some 3
    \<and> spec_index \<lparr>minimum = 1, maximum = 3, width = 300\<rparr> 299 = Some 2
    \<and> num_types \<lparr>minimum = 1, maximum = 3, width = 300\<rparr> = Some 3
    \<and> mouseEvent \<lparr>minimum = 0, maximum = mx, width = wd\<rparr> x
        = spec_index \<lparr>minimum = 0, maximum = mx, width = wd\<rparr> x"
proof (intro conjI)
  show "mouseEvent \<lparr>minimum = 0, maximum = mx, width = wd\<rparr> x
        = spec_index \<lparr>minimum = 0, maximum = mx, width = wd\<rparr> x"
    by (simp add: mouseEvent_def spec_index_def minus_zero_mopo_float del: zero_Finite)
qed (simp_all add: mouseEvent_def spec_index_def num_types_def int_to_float_def)

section \<open>Properties of the conversions\<close>

text \<open>
  The values of \<open>gainToDb\<close> and \<open>frequencyToMidiNote\<close> at the points where the
  logarithm is not defined: \<open>gainToDb(0)\<close> is minus infinity, and \<open>gainToDb\<close> of a
  negative number is \<open>NaN\<close>. The functions of \<open>utils.h\<close> contain no statement that
  raises or aborts, so their models have no error value; the floating-point status
  flags and \<open>errno\<close>, by which the C library reports such points, are outside the model.
\<close>

lemma gainToDb_values:
  "gainToDb 0 = NegInf
    \<and> gainToDb (Finite g) = (if 0 < g then Finite (20 * log 10 g) else if g = 0 then NegInf else NaN)
    \<and> gainToDb PosInf = PosInf \<and> gainToDb NegInf = NaN \<and> gainToDb NaN = NaN
    \<and> frequencyToMidiNote 0 = NegInf \<and> frequencyToMidiNote (- 1) = NaN"
  by (simp add: gainToDb_def DB_GAIN_CONVERSION_MULT_def frequencyToMidiNote_def
      MIDI_0_FREQUENCY_def int_to_float_def NOTES_PER_OCTAVE_def)

lemma pow_libm_pos:
  "0 < b \<Longrightarrow> pow_libm (Finite b) (Finite y) = Finite (b powr y)"
  by auto

lemma MIDI_0_FREQUENCY_Finite: "MIDI_0_FREQUENCY = Finite 8.1757989156"
  by (simp add: MIDI_0_FREQUENCY_def)

lemma frequencyToMidiNote_Finite:
  assumes "0 < f"
  shows "frequencyToMidiNote (Finite f) = Finite (12 * ln (f / 8.1757989156) / ln 2)"
proof -
  have "0 < f / 8.1757989156" using assms by simp
  then show ?thesis
    by (simp add: frequencyToMidiNote_def MIDI_0_FREQUENCY_Finite int_to_float_def
        NOTES_PER_OCTAVE_def)
qed

lemma midiNoteToFrequency_Finite:
  "midiNoteToFrequency (Finite n) = Finite (8.1757989156 * 2 powr (n * 100 / 1200))"
  unfolding midiNoteToFrequency_def midiCentsToFrequency_def centsToRatio_def
    MIDI_0_FREQUENCY_Finite int_to_float_def CENTS_PER_OCTAVE_def NOTES_PER_OCTAVE_def
    CENTS_PER_NOTE_def
  by (simp add: pow_libm_pos del: pow_libm.simps)

lemma midi_round_trip_exact:
  assumes "0 < f"
  shows "midiNoteToFrequency (frequencyToMidiNote (Finite f)) = Finite f"
proof -
  let ?c = "8.1757989156 :: real"
  have c: "0 < ?c" by simp
  have q: "0 < f / ?c" using assms by simp
  have "2 powr (12 * ln (f / ?c) / ln 2 * 100 / 1200) = 2 powr (log 2 (f / ?c))"
    by (simp add: log_def)
  also have "\<dots> = f / ?c" using q by simp
  finally have "?c * 2 powr (12 * ln (f / ?c) / ln 2 * 100 / 1200) = f" by simp
  then show ?thesis
    by (simp only: frequencyToMidiNote_Finite [OF assms] midiNoteToFrequency_Finite)
qed

lemma frequencyToMidiNote_rounded_exact:
  "0 < f \<Longrightarrow> frequencyToMidiNote (Finite f) = Finite (frequencyToMidiNote_rounded (\<lambda>k. 0) f)"
  by (simp add: frequencyToMidiNote_Finite frequencyToMidiNote_rounded_def rounded_def)

lemma midiNoteToFrequency_rounded_exact:
  "midiNoteToFrequency (Finite n) = Finite (midiNoteToFrequency_rounded (\<lambda>k. 0) n)"
  by (simp add: midiNoteToFrequency_Finite midiNoteToFrequency_rounded_def rounded_def)

lemma rel_step:
  fixes p d a e :: real
  assumes "\<bar>p - 1\<bar> \<le> a" "\<bar>d\<bar> \<le> e" "a \<le> 1"
  shows "\<bar>p * (1 + d) - 1\<bar> \<le> a + 2 * e"
proof -
  have p: "\<bar>p\<bar> \<le> 2" using assms(1,3) by linarith
  have "\<bar>p * d\<bar> \<le> 2 * e"
    unfolding abs_mult using p assms(2) by (intro mult_mono) simp_all
  moreover have "p * (1 + d) - 1 = (p - 1) + p * d" by (simp add: algebra_simps)
  ultimately show ?thesis using assms(1) by linarith
qed

lemma ln_one_plus_bound:
  fixes d :: real
  assumes "\<bar>d\<bar> \<le> 1/2"
  shows "\<bar>ln (1 + d)\<bar> \<le> 2 * \<bar>d\<bar>"
proof -
  have pos: "0 < 1 + d" using assms by linarith
  have up: "ln (1 + d) \<le> d" using ln_le_minus_one [OF pos] by simp
  have "ln (1 / (1 + d)) \<le> 1 / (1 + d) - 1"
    using pos by (intro ln_le_minus_one) simp
  then have "- ln (1 + d) \<le> 1 / (1 + d) - 1"
    using pos by (simp add: ln_div)
  also have "1 / (1 + d) - 1 = - d / (1 + d)" using pos by (simp add: field_simps)
  finally have low: "d / (1 + d) \<le> ln (1 + d)" by simp
  have "- (2 * \<bar>d\<bar>) \<le> d / (1 + d)"
  proof (cases "0 \<le> d")
    case True
    then have "0 \<le> d / (1 + d)" using pos by simp
    then show ?thesis using True by linarith
  next
    case False
    have h: "1 \<le> 2 * (1 + d)" "d \<le> 0" using assms False by argo+
    have "d * 1 \<ge> d * (2 * (1 + d))"
      by (rule mult_left_mono_neg [OF h])
    then have "2 * d * (1 + d) \<le> d" by (simp add: algebra_simps)
    then have "2 * d \<le> d / (1 + d)" using pos by (simp add: pos_le_divide_eq)
    then show ?thesis using False by linarith
  qed
  then show ?thesis using up low by linarith
qed

lemma exp_minus_one_bound:
  fixes s :: real
  assumes "\<bar>s\<bar> \<le> 1/2"
  shows "\<bar>exp s - 1\<bar> \<le> 2 * \<bar>s\<bar>"
proof -
  have low: "s \<le> exp s - 1" using exp_ge_add_one_self [of s] by linarith
  have pos: "0 < 1 - s" using assms by linarith
  have "1 - s \<le> exp (- s)" using exp_ge_add_one_self [of "- s"] by simp
  then have "exp s * (1 - s) \<le> exp s * exp (- s)" by (intro mult_left_mono) simp_all
  then have "exp s * (1 - s) \<le> 1" by (simp add: exp_minus field_simps)
  then have e: "exp s \<le> 1 / (1 - s)" using pos by (simp add: pos_le_divide_eq)
  have "1 / (1 - s) - 1 = s / (1 - s)" using pos by (simp add: field_simps)
  moreover have "s / (1 - s) \<le> 2 * \<bar>s\<bar>"
  proof (cases "0 \<le> s")
    case True
    have h: "1 \<le> 2 * (1 - s)" using assms by argo
    have "s * 1 \<le> s * (2 * (1 - s))" by (rule mult_left_mono [OF h True])
    then have "s \<le> 2 * s * (1 - s)" by (simp add: algebra_simps)
    then have "s / (1 - s) \<le> 2 * s" using pos by (simp add: pos_divide_le_eq)
    then show ?thesis using True by linarith
  next
    case False
    then have "s / (1 - s) \<le> 0" using pos by (simp add: divide_le_0_iff)
    then show ?thesis by linarith
  qed
  ultimately have up: "exp s - 1 \<le> 2 * \<bar>s\<bar>" using e by linarith
  show ?thesis using low up by linarith
qed

lemma rounded_round_trip:
  fixes \<delta> :: "nat \<Rightarrow> real" and f :: real
  assumes d: "\<forall>k. \<bar>\<delta> k\<bar> \<le> 1 / 10 ^ 12" and f: "20 \<le> f" "f \<le> 20000"
  shows "\<bar>midiNoteToFrequency_rounded \<delta> (frequencyToMidiNote_rounded \<delta> f) - f\<bar> \<le> f / 10 ^ 9"
proof -
  define e :: real where "e = 1 / 10 ^ 12"
  have dk: "\<bar>\<delta> k\<bar> \<le> e" for k using d by (simp add: e_def)
  have e_small: "0 \<le> e" "1000 * e \<le> 1" by (simp_all add: e_def)
  have one_plus: "1 / 2 \<le> 1 + \<delta> k" "1 + \<delta> k \<le> 2" for k
    using dk [of k] e_small by (simp_all add: abs_le_iff)
  have pos: "0 < 1 + \<delta> k" for k using one_plus(1) [of k] by linarith
  define c :: real where "c = rounded (\<delta> 9) 8.1757989156"
  have c_eq: "c = 8.1757989156 * (1 + \<delta> 9)" by (simp add: c_def rounded_def)
  have d9: "999 / 1000 \<le> 1 + \<delta> 9" "1 + \<delta> 9 \<le> 1001 / 1000"
    using dk [of 9] e_small by (simp_all add: abs_le_iff)
  have "8.1757989156 * (999 / 1000) \<le> 8.1757989156 * (1 + \<delta> 9)"
    by (rule mult_left_mono [OF d9(1)]) simp
  moreover have "8.1757989156 * (1 + \<delta> 9) \<le> 8.1757989156 * (1001 / 1000)"
    by (rule mult_left_mono [OF d9(2)]) simp
  ultimately have c_bounds: "8 \<le> c" "c \<le> 9" unfolding c_eq by simp_all
  have c_pos: "0 < c" using c_bounds by linarith
  define a :: real where "a = f / c"
  have a_low: "1 \<le> a"
    using f c_bounds c_pos by (simp add: a_def pos_le_divide_eq)
  have a_up: "a \<le> 3 ^ 8"
    using f c_bounds c_pos by (simp add: a_def pos_divide_le_eq)
  have a_pos: "0 < a" using a_low by linarith
  have ln_a: "0 \<le> ln a" "ln a \<le> 16"
  proof -
    show "0 \<le> ln a" using a_low by simp
    have "ln a \<le> ln (3 ^ 8 :: real)" using a_up a_pos by simp
    also have "\<dots> = real 8 * ln 3" by (rule ln_realpow)
    also have "\<dots> \<le> real 8 * 2" using ln_le_minus_one [of "3::real"] by simp
    finally show "ln a \<le> 16" by simp
  qed
  define q :: real where "q = a * (1 + \<delta> 0)"
  have q_pos: "0 < q" using a_pos pos [of 0] by (simp add: q_def)
  have ln_q: "ln q = ln a + ln (1 + \<delta> 0)"
    using a_pos pos [of 0] by (simp add: q_def ln_mult)
  define E :: real where
    "E = (1 + \<delta> 1) * (1 + \<delta> 2) * (1 + \<delta> 4) * (1 + \<delta> 5) * (1 + \<delta> 6) * (1 + (- \<delta> 3 / (1 + \<delta> 3)))"
  have inv3: "1 / (1 + \<delta> 3) = 1 + (- \<delta> 3 / (1 + \<delta> 3))"
    using pos [of 3] by (simp add: field_simps)
  have d3: "\<bar>- \<delta> 3 / (1 + \<delta> 3)\<bar> \<le> 2 * e"
  proof -
    have "\<bar>- \<delta> 3 / (1 + \<delta> 3)\<bar> = \<bar>\<delta> 3\<bar> / (1 + \<delta> 3)"
      using pos [of 3] by (simp add: abs_divide abs_of_pos)
    also have "\<dots> \<le> e / (1 / 2)"
      using dk [of 3] one_plus(1) [of 3] e_small by (intro frac_le) simp_all
    finally show ?thesis by simp
  qed
  have s1: "\<bar>1 * (1 + \<delta> 1) - 1\<bar> \<le> 0 + 2 * e"
    by (rule rel_step [OF _ dk]) simp_all
  have s2: "\<bar>1 * (1 + \<delta> 1) * (1 + \<delta> 2) - 1\<bar> \<le> 0 + 2 * e + 2 * e"
    by (rule rel_step [OF s1 dk]) (use e_small in simp)
  have s3: "\<bar>1 * (1 + \<delta> 1) * (1 + \<delta> 2) * (1 + \<delta> 4) - 1\<bar> \<le> 0 + 2 * e + 2 * e + 2 * e"
    by (rule rel_step [OF s2 dk]) (use e_small in simp)
  have s4: "\<bar>1 * (1 + \<delta> 1) * (1 + \<delta> 2) * (1 + \<delta> 4) * (1 + \<delta> 5) - 1\<bar>
      \<le> 0 + 2 * e + 2 * e + 2 * e + 2 * e"
    by (rule rel_step [OF s3 dk]) (use e_small in simp)
  have s5: "\<bar>1 * (1 + \<delta> 1) * (1 + \<delta> 2) * (1 + \<delta> 4) * (1 + \<delta> 5) * (1 + \<delta> 6) - 1\<bar>
      \<le> 0 + 2 * e + 2 * e + 2 * e + 2 * e + 2 * e"
    by (rule rel_step [OF s4 dk]) (use e_small in simp)
  have s6: "\<bar>1 * (1 + \<delta> 1) * (1 + \<delta> 2) * (1 + \<delta> 4) * (1 + \<delta> 5) * (1 + \<delta> 6)
        * (1 + (- \<delta> 3 / (1 + \<delta> 3))) - 1\<bar>
      \<le> 0 + 2 * e + 2 * e + 2 * e + 2 * e + 2 * e + 2 * (2 * e)"
    by (rule rel_step [OF s5 d3]) (use e_small in simp)
  have E1: "\<bar>E - 1\<bar> \<le> 14 * e" using s6 by (simp add: E_def)
  have E_abs: "\<bar>E\<bar> \<le> 2" using E1 e_small by (simp add: abs_le_iff)
  have gen: "12 * (L * u1) * u2 / (l2 * u3) * u4 * 100 * u5 / 1200 * u6
      = u1 * u2 * u4 * u5 * u6 * (1 / u3) * L / l2"
    if "u3 \<noteq> 0" "l2 \<noteq> 0" for L l2 u1 u2 u3 u4 u5 u6 :: real
    using that by (simp add: field_simps)
  have u3: "1 + \<delta> 3 \<noteq> 0" using pos [of 3] by linarith
  have ln2: "ln (2::real) \<noteq> 0" by simp
  have "rounded (\<delta> 6) (rounded (\<delta> 5) (frequencyToMidiNote_rounded \<delta> f * 100) / 1200)
      = 12 * (ln q * (1 + \<delta> 1)) * (1 + \<delta> 2) / (ln 2 * (1 + \<delta> 3)) * (1 + \<delta> 4) * 100
          * (1 + \<delta> 5) / 1200 * (1 + \<delta> 6)"
    by (simp only: frequencyToMidiNote_rounded_def rounded_def c_def a_def q_def)
  also have "\<dots> = (1 + \<delta> 1) * (1 + \<delta> 2) * (1 + \<delta> 4) * (1 + \<delta> 5) * (1 + \<delta> 6)
          * (1 / (1 + \<delta> 3)) * ln q / ln 2"
    by (rule gen [OF u3 ln2])
  finally have x_eq:
    "rounded (\<delta> 6) (rounded (\<delta> 5) (frequencyToMidiNote_rounded \<delta> f * 100) / 1200)
      = E * ln q / ln 2"
    by (simp only: E_def inv3)
  have pw: "2 powr (E * ln q / ln 2) = exp (E * ln q)"
    by (simp add: powr_def)
  define s :: real where "s = (E - 1) * ln a + E * ln (1 + \<delta> 0)"
  have s_eq: "E * ln q = ln a + s" by (simp add: s_def ln_q algebra_simps)
  have l0: "\<bar>ln (1 + \<delta> 0)\<bar> \<le> 2 * e"
  proof -
    have "\<bar>\<delta> 0\<bar> \<le> 1 / 2" using dk [of 0] e_small by linarith
    then have "\<bar>ln (1 + \<delta> 0)\<bar> \<le> 2 * \<bar>\<delta> 0\<bar>" by (rule ln_one_plus_bound)
    then show ?thesis using dk [of 0] by linarith
  qed
  have t1: "\<bar>(E - 1) * ln a\<bar> \<le> 14 * e * 16"
    unfolding abs_mult using E1 ln_a by (intro mult_mono) simp_all
  have t2: "\<bar>E * ln (1 + \<delta> 0)\<bar> \<le> 2 * (2 * e)"
    unfolding abs_mult using E_abs l0 by (intro mult_mono) simp_all
  have s_abs: "\<bar>s\<bar> \<le> 228 * e" using t1 t2 by (simp add: s_def abs_le_iff)
  have "\<bar>s\<bar> \<le> 1 / 2" using s_abs e_small by linarith
  then have "\<bar>exp s - 1\<bar> \<le> 2 * \<bar>s\<bar>" by (rule exp_minus_one_bound)
  then have x0: "\<bar>exp s - 1\<bar> \<le> 456 * e" using s_abs by linarith
  have x1: "\<bar>exp s * (1 + \<delta> 7) - 1\<bar> \<le> 456 * e + 2 * e"
    by (rule rel_step [OF x0 dk]) (use e_small in simp)
  have x2: "\<bar>exp s * (1 + \<delta> 7) * (1 + \<delta> 8) - 1\<bar> \<le> 456 * e + 2 * e + 2 * e"
    by (rule rel_step [OF x1 dk]) (use e_small in simp)
  have ca: "c * a = f" using c_pos by (simp add: a_def)
  have res: "midiNoteToFrequency_rounded \<delta> (frequencyToMidiNote_rounded \<delta> f)
      = f * (exp s * (1 + \<delta> 7) * (1 + \<delta> 8))"
  proof -
    have "midiNoteToFrequency_rounded \<delta> (frequencyToMidiNote_rounded \<delta> f)
        = c * (2 powr (E * ln q / ln 2) * (1 + \<delta> 7)) * (1 + \<delta> 8)"
      unfolding midiNoteToFrequency_rounded_def x_eq
      by (simp add: rounded_def c_def)
    also have "\<dots> = c * (exp (E * ln q) * (1 + \<delta> 7)) * (1 + \<delta> 8)"
      by (simp only: pw)
    also have "\<dots> = c * (exp (ln a + s) * (1 + \<delta> 7)) * (1 + \<delta> 8)"
      by (simp only: s_eq)
    also have "\<dots> = (c * a) * (exp s * (1 + \<delta> 7) * (1 + \<delta> 8))"
      using a_pos by (simp add: exp_add)
    finally show ?thesis by (simp only: ca)
  qed
  have f_pos: "0 < f" using f by linarith
  have "\<bar>f * (exp s * (1 + \<delta> 7) * (1 + \<delta> 8)) - f\<bar>
      = f * \<bar>exp s * (1 + \<delta> 7) * (1 + \<delta> 8) - 1\<bar>"
  proof -
    have "f * (exp s * (1 + \<delta> 7) * (1 + \<delta> 8)) - f = f * (exp s * (1 + \<delta> 7) * (1 + \<delta> 8) - 1)"
      by (simp add: algebra_simps)
    then show ?thesis using f_pos by (simp only: abs_mult abs_of_pos)
  qed
  also have "\<dots> \<le> f * (460 * e)"
    using x2 f_pos by (intro mult_left_mono) simp_all
  also have "\<dots> \<le> f / 10 ^ 9"
    using f_pos by (simp add: e_def)
  finally show ?thesis unfolding res .
qed

text \<open>
  Claim C6. For every frequency \<open>f\<close> in \<open>[20, 20000]\<close>,
  \<open>midiNoteToFrequency(frequencyToMidiNote(f))\<close> is \<open>f\<close> within a relative error of
  \<open>1e-9\<close>. In exact arithmetic the two conversions are inverse to each other, so the
  round trip returns \<open>f\<close> itself; and when each of the operations rounds with a relative
  error of at most \<open>1e-12\<close> (double precision rounds with about \<open>1.1e-16\<close>), the result is
  within \<open>1e-9 * f\<close> of \<open>f\<close>.
\<close>

theorem midi_round_trip:
  assumes "\<forall>k. \<bar>\<delta> k\<bar> \<le> 1 / 10 ^ 12" "20 \<le> f" "f \<le> 20000"
  shows "midiNoteToFrequency (frequencyToMidiNote (Finite f)) = Finite f
    \<and> \<bar>midiNoteToFrequency_rounded \<delta> (frequencyToMidiNote_rounded \<delta> f) - f\<bar> \<le> f / 10 ^ 9"
proof -
  have "0 < f" using assms(2) by linarith
  then have "midiNoteToFrequency (frequencyToMidiNote (Finite f)) = Finite f"
    by (rule midi_round_trip_exact)
  then show ?thesis using rounded_round_trip [OF assms] by blast
qed

theorem midi_round_trip_witness:
  "(\<forall>k. \<bar>(\<lambda>k. 1 / 10 ^ 12 :: real) k\<bar> \<le> 1 / 10 ^ 12)
    \<and> (20::real) \<le> 440 \<and> (440::real) \<le> 20000
    \<and> midiNoteToFrequency (frequencyToMidiNote (Finite 440)) = Finite 440
    \<and> \<bar>midiNoteToFrequency_rounded (\<lambda>k. 1 / 10 ^ 12)
          (frequencyToMidiNote_rounded (\<lambda>k. 1 / 10 ^ 12) 440) - 440\<bar> \<le> 440 / 10 ^ 9"
  using midi_round_trip [of "\<lambda>k. 1 / 10 ^ 12" 440] by simp

lemma magnitudeToQ_Finite: "magnitudeToQ (Finite m) = Finite (2 powr (- 1 + m * 5))"
  unfolding magnitudeToQ_def INTERPOLATE_def MIN_Q_POW_def MAX_Q_POW_def
  by (simp add: pow_libm_pos del: pow_libm.simps)

lemma qToMagnitude_Finite: "qToMagnitude (Finite q) = Finite ((0.5 powr q + 1) / 5)"
  unfolding qToMagnitude_def MIN_Q_POW_def MAX_Q_POW_def
  by (simp add: pow_libm_pos del: pow_libm.simps)

text \<open>
  Claim C1. For every magnitude \<open>m\<close> in \<open>[0, 1]\<close>, \<open>qToMagnitude(magnitudeToQ(m))\<close>
  is to return \<open>m\<close> up to rounding. The code does not: \<open>magnitudeToQ(m)\<close> is
  \<open>2^(-1 + 5 m)\<close>, whose inverse is \<open>(log2(q) - (-1)) / (4 - (-1))\<close>, and \<open>qToMagnitude\<close>
  has \<open>pow(0.5, q)\<close> where the logarithm belongs. The round trip is
  \<open>(0.5^(2^(5 m - 1)) + 1) / 5\<close>: more than \<open>1/3\<close> at \<open>m = 0\<close>, less than \<open>1/4\<close> at
  \<open>m = 1\<close>, and strictly between \<open>1/5\<close> and \<open>2/5\<close> for every \<open>m\<close>.
\<close>

theorem q_round_trip_fails:
  "qToMagnitude (magnitudeToQ (Finite m)) = Finite ((0.5 powr (2 powr (- 1 + m * 5)) + 1) / 5)
    \<and> Finite (1/3) < qToMagnitude (magnitudeToQ 0)
    \<and> qToMagnitude (magnitudeToQ 1) < Finite (1/4)
    \<and> Finite (1/5) < qToMagnitude (magnitudeToQ (Finite m))
    \<and> qToMagnitude (magnitudeToQ (Finite m)) < Finite (2/5)"
proof (intro conjI)
  show "qToMagnitude (magnitudeToQ (Finite m)) = Finite ((0.5 powr (2 powr (- 1 + m * 5)) + 1) / 5)"
    by (simp only: magnitudeToQ_Finite qToMagnitude_Finite)
next
  have h: "(2::real) powr (- 1) = 1 / 2" by (simp add: powr_minus_divide)
  have "(2/3)\<^sup>2 < (1/2::real)" by (simp add: power2_eq_square)
  then have "2/3 < sqrt (1/2::real)" by (rule real_less_rsqrt)
  then have s: "2/3 < (1/2::real) powr (1/2)" by (simp add: powr_half_sqrt)
  have "qToMagnitude (magnitudeToQ 0) = Finite (((1/2) powr (1/2) + 1) / 5)"
    using magnitudeToQ_Finite [of 0] qToMagnitude_Finite [of "1/2"] h by simp
  then show "Finite (1/3) < qToMagnitude (magnitudeToQ 0)" using s by simp
next
  have h: "(2::real) powr 4 = 16" 
    using powr_realpow [of 2 4] by simp
  have p: "(1/2::real) powr 16 = 1 / 65536"
    using powr_realpow [of "1/2::real" 16] by (simp add: power_one_over)
  have "qToMagnitude (magnitudeToQ 1) = Finite ((1 / 65536 + 1) / 5)"
    using magnitudeToQ_Finite [of 1] qToMagnitude_Finite [of 16] h p by simp
  then show "qToMagnitude (magnitudeToQ 1) < Finite (1/4)" by simp
next
  let ?t = "2 powr (- 1 + m * 5) :: real"
  have e: "qToMagnitude (magnitudeToQ (Finite m)) = Finite ((0.5 powr ?t + 1) / 5)"
    by (simp only: magnitudeToQ_Finite qToMagnitude_Finite)
  have pos: "0 < (0.5::real) powr ?t" by simp
  have t: "0 < ?t" by simp
  have "(0.5::real) powr ?t < 0.5 powr 0"
    using t by (intro powr_less_mono') simp_all
  then have lt: "(0.5::real) powr ?t < 1" by simp
  show "Finite (1/5) < qToMagnitude (magnitudeToQ (Finite m))"
    using pos unfolding e by simp
  show "qToMagnitude (magnitudeToQ (Finite m)) < Finite (2/5)"
    using lt unfolding e by simp
qed

section \<open>Properties of the fast approximations\<close>

lemma quickertanh_Finite:
  "quickertanh (Finite a) = Finite (a / (1 + a * a / (3 + a * a / 5)))"
proof -
  have p: "0 \<le> a * a" by simp
  have 1: "3 + a * a / 5 \<noteq> 0" using p by (smt (verit) divide_nonneg_pos)
  have "0 \<le> a * a / (3 + a * a / 5)" using p by (smt (verit) divide_nonneg_pos)
  then have 2: "1 + a * a / (3 + a * a / 5) \<noteq> 0" by linarith
  show ?thesis using 1 2 by (simp add: quickertanh_def Let_def)
qed

lemma quicktanh_Finite:
  "quicktanh (Finite a) =
     Finite (a * ((10299145 / 2 ^ 22) + (10299145 / 2 ^ 22) * \<bar>a\<bar> +
                  a * a * ((7492955 / 2 ^ 23) + (13777897 / 2 ^ 24) * \<bar>a\<bar>)) /
             ((1281919 / 2 ^ 19) + ((1281919 / 2 ^ 19) + a * a) *
                  \<bar>a + (13667437 / 2 ^ 24) * a * \<bar>a\<bar>\<bar>))"
proof -
  have "0 \<le> ((1281919 / 2 ^ 19) + a * a) * \<bar>a + (13667437 / 2 ^ 24) * a * \<bar>a\<bar>\<bar>"
    by (intro mult_nonneg_nonneg) simp_all
  then have "0 < (1281919 / 2 ^ 19) + ((1281919 / 2 ^ 19) + a * a) *
                  \<bar>a + (13667437 / 2 ^ 24) * a * \<bar>a\<bar>\<bar>"
    by (intro add_pos_nonneg) simp_all
  then show ?thesis by (simp add: quicktanh_def Let_def)
qed

lemma tanh_rounded_odd:
  assumes odd: "\<forall>x. rnd (- x) = - rnd x"
  shows "quickertanh_rounded rnd (- v) = - quickertanh_rounded rnd v"
    and "quicktanh_rounded rnd (- v) = - quicktanh_rounded rnd v"
proof -
  have r: "rnd (- x) = - rnd x" for x using odd by blast
  show "quickertanh_rounded rnd (- v) = - quickertanh_rounded rnd v"
    by (simp add: quickertanh_rounded_def Let_def r)
  have 1: "rnd ((13667437 / 2 ^ 24) * - v) = - rnd ((13667437 / 2 ^ 24) * v)"
    using r [of "(13667437 / 2 ^ 24) * v"] by simp
  have 2: "rnd (- rnd ((13667437 / 2 ^ 24) * v) * \<bar>v\<bar>) = - rnd (rnd ((13667437 / 2 ^ 24) * v) * \<bar>v\<bar>)"
    using r [of "rnd ((13667437 / 2 ^ 24) * v) * \<bar>v\<bar>"] by simp
  have 3: "rnd (- v + - rnd (rnd ((13667437 / 2 ^ 24) * v) * \<bar>v\<bar>))
      = - rnd (v + rnd (rnd ((13667437 / 2 ^ 24) * v) * \<bar>v\<bar>))"
    using r [of "v + rnd (rnd ((13667437 / 2 ^ 24) * v) * \<bar>v\<bar>)"] by simp
  have 4: "rnd (- v * y) = - rnd (v * y)" for y using r [of "v * y"] by simp
  have 5: "rnd (- x / y) = - rnd (x / y)" for x y using r [of "x / y"] by simp
  show "quicktanh_rounded rnd (- v) = - quicktanh_rounded rnd v"
    unfolding quicktanh_rounded_def Let_def
    by (simp only: abs_minus_cancel minus_mult_minus 1 2 3 4 5 abs_minus)
qed

lemma truncate_bits_odd: "truncate_bits (- x) = - truncate_bits x"
  by (simp add: truncate_bits_def)



text \<open>
  Claim C7. \<open>quickertanh(-x) = -quickertanh(x)\<close> and \<open>quicktanh(-x) = -quicktanh(x)\<close> for
  every \<open>x\<close>, and both functions are \<open>0\<close> at \<open>0\<close>. The symmetry is exact also when every
  operation rounds, as long as the rounding treats a number and its negative alike.
\<close>

theorem tanh_odd:
  "quickertanh (- x) = - quickertanh x \<and> quicktanh (- x) = - quicktanh x
    \<and> quickertanh 0 = 0 \<and> quicktanh 0 = 0
    \<and> ((\<forall>y. rnd (- y) = - rnd y) \<longrightarrow>
          quickertanh_rounded rnd (- v) = - quickertanh_rounded rnd v
          \<and> quicktanh_rounded rnd (- v) = - quicktanh_rounded rnd v)"
proof (intro conjI impI)
  show "quickertanh (- x) = - quickertanh x"
  proof (cases x)
    case (Finite a)
    then show ?thesis using quickertanh_Finite [of a] quickertanh_Finite [of "- a"] by simp
  qed (simp_all add: quickertanh_def)
  show "quicktanh (- x) = - quicktanh x"
  proof (cases x)
    case (Finite a)
    have "\<bar>- a - (13667437 / 2 ^ 24) * a * \<bar>a\<bar>\<bar> = \<bar>a + (13667437 / 2 ^ 24) * a * \<bar>a\<bar>\<bar>"
      by linarith
    then show ?thesis using Finite quicktanh_Finite [of a] quicktanh_Finite [of "- a"] by simp
  qed (simp_all add: quicktanh_def)
  show "quickertanh 0 = 0" using quickertanh_Finite [of 0] by simp
  show "quicktanh 0 = 0" using quicktanh_Finite [of 0] by simp
next
  assume "\<forall>y. rnd (- y) = - rnd y"
  then show "quickertanh_rounded rnd (- v) = - quickertanh_rounded rnd v"
    by (rule tanh_rounded_odd)
next
  assume "\<forall>y. rnd (- y) = - rnd y"
  then show "quicktanh_rounded rnd (- v) = - quicktanh_rounded rnd v"
    by (rule tanh_rounded_odd)
qed

theorem tanh_odd_witness:
  "(\<forall>y. truncate_bits (- y) = - truncate_bits y)
    \<and> quickertanh_rounded truncate_bits (- 2) = - quickertanh_rounded truncate_bits 2
    \<and> quicktanh_rounded truncate_bits (- 2) = - quicktanh_rounded truncate_bits 2
    \<and> quickertanh (- 2) = - quickertanh 2 \<and> quicktanh (- 2) = - quicktanh 2"
  using tanh_odd [of 2 truncate_bits 2] truncate_bits_odd by blast

lemma quickerSin_Finite: "quickerSin (Finite p) = Finite (p * (8 - 16 * \<bar>p\<bar>))"
  by (simp add: quickerSin_def)

lemma quickSin_Finite:
  "quickSin (Finite p) =
     Finite (p * (8 - 16 * \<bar>p\<bar>) * (0.776 + 0.224 * \<bar>p * (8 - 16 * \<bar>p\<bar>)\<bar>))"
  by (simp add: quickSin_def quickerSin_Finite Let_def)

lemma parabola_bound:
  fixes p :: real
  assumes "- (1/2) \<le> p" "p \<le> 1/2"
  shows "\<bar>p * (8 - 16 * \<bar>p\<bar>)\<bar> \<le> 1"
proof -
  have sq: "0 \<le> (4 * \<bar>p\<bar> - 1)\<^sup>2" by simp
  have "\<bar>p * (8 - 16 * \<bar>p\<bar>)\<bar> = \<bar>p\<bar> * (8 - 16 * \<bar>p\<bar>)"
    using assms by (simp add: abs_mult)
  also have "\<dots> = 1 - (4 * \<bar>p\<bar> - 1)\<^sup>2"
    by (simp add: power2_eq_square algebra_simps)
  also have "\<dots> \<le> 1" using sq by linarith
  finally show ?thesis .
qed

lemma refine_bound:
  fixes a :: real
  assumes "\<bar>a\<bar> \<le> 1"
  shows "\<bar>a * (0.776 + 0.224 * \<bar>a\<bar>)\<bar> \<le> 1"
proof -
  have "\<bar>a * (0.776 + 0.224 * \<bar>a\<bar>)\<bar> = \<bar>a\<bar> * (0.776 + 0.224 * \<bar>a\<bar>)"
    by (simp add: abs_mult)
  also have "\<dots> \<le> 1 * (0.776 + 0.224 * 1)"
    using assms by (intro mult_mono) simp_all
  also have "\<dots> = 1" by simp
  finally show ?thesis .
qed

text \<open>
  Claim C10. For every phase \<open>p\<close> in \<open>[-0.5, 0.5]\<close>, \<open>|quickerSin(p)| \<le> 1\<close> and
  \<open>|quickSin(p)| \<le> 1\<close>. \<open>quickerSin\<close> is exactly \<open>1\<close> and \<open>-1\<close> at \<open>p = 0.25\<close> and
  \<open>p = -0.25\<close>, and exactly \<open>0\<close> at \<open>p = 0\<close>, \<open>0.5\<close> and \<open>-0.5\<close>; \<open>quickSin\<close> keeps
  the values \<open>1\<close> and \<open>-1\<close> there.
\<close>

theorem quickSin_unit_amplitude:
  "(- 0.5 \<le> p \<and> p \<le> 0.5 \<longrightarrow> \<bar>quickerSin p\<bar> \<le> 1 \<and> \<bar>quickSin p\<bar> \<le> 1)
    \<and> quickerSin 0.25 = 1 \<and> quickerSin (- 0.25) = - 1
    \<and> quickerSin 0 = 0 \<and> quickerSin 0.5 = 0 \<and> quickerSin (- 0.5) = 0
    \<and> quickSin 0.25 = 1 \<and> quickSin (- 0.25) = - 1"
proof -
  have bound: "\<bar>quickerSin p\<bar> \<le> 1 \<and> \<bar>quickSin p\<bar> \<le> 1" if "- 0.5 \<le> p" "p \<le> 0.5"
  proof (cases p)
    case (Finite r)
    have r: "- (1/2) \<le> r" "r \<le> 1/2" using that Finite by simp_all
    have a: "\<bar>r * (8 - 16 * \<bar>r\<bar>)\<bar> \<le> 1" using r by (rule parabola_bound)
    have b: "\<bar>r * (8 - 16 * \<bar>r\<bar>) * (0.776 + 0.224 * \<bar>r * (8 - 16 * \<bar>r\<bar>)\<bar>)\<bar> \<le> 1"
      using a by (rule refine_bound)
    show ?thesis
      using a b by (simp only: Finite quickerSin_Finite quickSin_Finite abs_mopo_float.simps
          one_Finite less_eq_mopo_float.simps simp_thms)
  qed (use that in simp_all)
  have points: "quickerSin 0.25 = 1 \<and> quickerSin (- 0.25) = - 1
    \<and> quickerSin 0 = 0 \<and> quickerSin 0.5 = 0 \<and> quickerSin (- 0.5) = 0
    \<and> quickSin 0.25 = 1 \<and> quickSin (- 0.25) = - 1"
    by (simp add: quickerSin_Finite quickSin_Finite)
  show ?thesis using bound points by blast
qed

theorem quickSin_unit_amplitude_witness:
  "- 0.5 \<le> (0.125 :: mopo_float) \<and> (0.125 :: mopo_float) \<le> 0.5
    \<and> \<bar>quickerSin 0.125\<bar> \<le> 1 \<and> \<bar>quickSin 0.125\<bar> \<le> 1"
  using quickSin_unit_amplitude [of "0.125"] by simp










subsection \<open>Rounding error of the soft clippers\<close>























end
